theory Spec2Isabelle
  imports Complex_Main "HOL-Library.Word" "HOL-Library.Multiset"
begin

unbundle bit_operations_syntax

section \<open>Colours\<close>

text \<open>
  A \<open>QRgb\<close> is an unsigned 32-bit value laid out as \<open>0xAARRGGBB\<close>. The channel
  accessors return \<open>int\<close>, as \<open>qRed\<close>, \<open>qGreen\<close>, \<open>qBlue\<close> and \<open>qAlpha\<close> do;
  \<open>qRgb\<close> masks every channel to its low byte and sets the alpha byte to \<open>0xff\<close>;
  \<open>qGray\<close> is the integer luma \<open>(11 r + 16 g + 5 b) / 32\<close>.
\<close>

type_synonym QRgb = "32 word"

definition qRed :: "QRgb \<Rightarrow> int" where
  "qRed rgb = uint (drop_bit 16 rgb AND 0xff)"

definition qGreen :: "QRgb \<Rightarrow> int" where
  "qGreen rgb = uint (drop_bit 8 rgb AND 0xff)"

definition qBlue :: "QRgb \<Rightarrow> int" where
  "qBlue rgb = uint (rgb AND 0xff)"

definition qAlpha :: "QRgb \<Rightarrow> int" where
  "qAlpha rgb = uint (drop_bit 24 rgb)"

definition qRgb :: "int \<Rightarrow> int \<Rightarrow> int \<Rightarrow> QRgb" where
  "qRgb r g b =
     push_bit 24 0xff OR push_bit 16 (word_of_int r AND 0xff)
       OR push_bit 8 (word_of_int g AND 0xff) OR (word_of_int b AND 0xff)"

definition qGray :: "QRgb \<Rightarrow> int" where
  "qGray rgb = (qRed rgb * 11 + qGreen rgb * 16 + qBlue rgb * 5) div 32"

text \<open>
  \<open>squareDistance\<close> of \<^verbatim>\<open>imagecolors.cpp\<close>. The branch looks at the signed difference
  of the red channels, first colour minus second. The source computes the squares
  with \<open>pow\<close> on doubles and converts the sum back to \<open>int\<close>; every value is an
  integer below \<open>2^53\<close>, so the arithmetic is exact and is written on \<open>int\<close>.
\<close>

definition squareDistance :: "QRgb \<Rightarrow> QRgb \<Rightarrow> int" where
  "squareDistance color1 color2 =
     (if qRed color1 - qRed color2 < 128
      then 2 * (qRed color1 - qRed color2)\<^sup>2
         + 4 * (qGreen color1 - qGreen color2)\<^sup>2
         + 3 * (qBlue color1 - qBlue color2)\<^sup>2
      else 3 * (qRed color1 - qRed color2)\<^sup>2
         + 4 * (qGreen color1 - qGreen color2)\<^sup>2
         + 2 * (qBlue color1 - qBlue color2)\<^sup>2)"

section \<open>Clusters\<close>

text \<open>
  \<open>ImageData::colorStat\<close>: the member colours, the centroid and the ratio. The ratio
  is a \<open>qreal\<close>; it is modelled by an exact rational.
\<close>

record colorStat =
  colors :: "QRgb list"
  centroid :: QRgb
  ratio :: rat

text \<open>
  \<open>ImageColors::positionColor\<close>: the colour joins the first cluster, in list order,
  whose centroid is nearer than the threshold; with no such cluster a new one is
  appended, holding the colour as its only member and as its centroid. The new
  cluster's ratio is never assigned here: it keeps what the declaration of
  \<open>colorStat\<close> gives it. That declaration and the constant
  \<open>s_minimumSquareDistance\<close> live in \<^verbatim>\<open>imagecolors.h\<close>, which is not among the
  sources, so both are parameters: \<open>msd\<close> and \<open>r0\<close>.
\<close>

fun positionColor :: "int \<Rightarrow> rat \<Rightarrow> QRgb \<Rightarrow> colorStat list \<Rightarrow> colorStat list" where
  "positionColor msd r0 rgb [] = [\<lparr>colors = [rgb], centroid = rgb, ratio = r0\<rparr>]"
| "positionColor msd r0 rgb (stat # clusters) =
     (if squareDistance rgb (centroid stat) < msd
      then stat\<lparr>colors := colors stat @ [rgb]\<rparr> # clusters
      else stat # positionColor msd r0 rgb clusters)"

text \<open>The loop \<^verbatim>\<open>for (auto color : m_samples) positionColor(color, m_clusters)\<close>.\<close>

definition positionAll :: "int \<Rightarrow> rat \<Rightarrow> QRgb list \<Rightarrow> colorStat list \<Rightarrow> colorStat list" where
  "positionAll msd r0 samples clusters =
     foldl (\<lambda>cs rgb. positionColor msd r0 rgb cs) clusters samples"

section \<open>Images and colour objects\<close>

text \<open>
  A \<open>QColor\<close> is either invalid (what \<open>QColor()\<close> constructs) or holds four 8-bit
  channels, kept here as the 32-bit value \<open>0xAARRGGBB\<close>. \<open>rgb\<close> drops the alpha
  channel (the result is opaque), and an invalid colour reads as opaque black with
  saturation and value 0. \<open>fromRgb\<close> is the constructor \<open>QColor(QRgb)\<close>, which
  ignores the alpha byte; \<open>fromChannels\<close> is \<open>QColor(int, int, int)\<close> on channels
  within 0..255.
\<close>

datatype QColor = QColorInvalid | QColorArgb QRgb

fun rgb :: "QColor \<Rightarrow> QRgb" where
  "rgb QColorInvalid = qRgb 0 0 0"
| "rgb (QColorArgb c) = qRgb (qRed c) (qGreen c) (qBlue c)"

fun alpha :: "QColor \<Rightarrow> int" where
  "alpha QColorInvalid = 255"
| "alpha (QColorArgb c) = qAlpha c"

definition red :: "QColor \<Rightarrow> int" where
  "red c = qRed (rgb c)"

definition green :: "QColor \<Rightarrow> int" where
  "green c = qGreen (rgb c)"

definition blue :: "QColor \<Rightarrow> int" where
  "blue c = qBlue (rgb c)"

definition fromRgb :: "QRgb \<Rightarrow> QColor" where
  "fromRgb c = QColorArgb (qRgb (qRed c) (qGreen c) (qBlue c))"

definition fromChannels :: "int \<Rightarrow> int \<Rightarrow> int \<Rightarrow> QColor" where
  "fromChannels r g b = QColorArgb (qRgb r g b)"

text \<open>
  The HSV value of a colour is its largest channel. Its HSV saturation is 0 for a
  grey (all channels equal); otherwise Qt rounds \<open>65535 (max - min) / max\<close> to a
  16-bit integer and returns its high byte. Qt computes the quotient in floating
  point; the model computes it exactly.
\<close>

definition qRound :: "rat \<Rightarrow> int" where
  "qRound q = (if 0 \<le> q then \<lfloor>q + 1 / 2\<rfloor> else \<lceil>q - 1 / 2\<rceil>)"

definition hsvValue :: "QColor \<Rightarrow> int" where
  "hsvValue c = (case c of QColorInvalid \<Rightarrow> 0
     | QColorArgb _ \<Rightarrow> max (red c) (max (green c) (blue c)))"

definition hsvSaturation :: "QColor \<Rightarrow> int" where
  "hsvSaturation c = (case c of QColorInvalid \<Rightarrow> 0
     | QColorArgb _ \<Rightarrow>
        (let mx = max (red c) (max (green c) (blue c));
             mn = min (red c) (min (green c) (blue c))
         in if mx = mn then 0
            else qRound (of_int (mx - mn) / of_int mx * 65535) div 256))"

text \<open>
  The image: whether it is null, its width and height, and the colour of each pixel.
\<close>

record QImage =
  isNull :: bool
  width :: int
  height :: int
  pixelColor :: "int \<Rightarrow> int \<Rightarrow> QColor"

section \<open>Sampling and refinement\<close>

text \<open>
  The outer loop runs over \<open>x\<close>, the inner one over \<open>y\<close>. A pixel with alpha 0 is
  skipped; every other pixel's opaque colour is appended to the samples and
  positioned among the clusters.
\<close>

definition scanOrder :: "QImage \<Rightarrow> QColor list" where
  "scanOrder img =
     concat (map (\<lambda>x. map (\<lambda>y. pixelColor img x y) [0 .. height img - 1])
                 [0 .. width img - 1])"

definition sampleStep ::
  "int \<Rightarrow> rat \<Rightarrow> QRgb list \<times> colorStat list \<Rightarrow> QColor \<Rightarrow> QRgb list \<times> colorStat list" where
  "sampleStep msd r0 st sampleColor =
     (if alpha sampleColor = 0 then st
      else (fst st @ [rgb sampleColor], positionColor msd r0 (rgb sampleColor) (snd st)))"

definition collectSamples :: "int \<Rightarrow> rat \<Rightarrow> QImage \<Rightarrow> QRgb list \<times> colorStat list" where
  "collectSamples msd r0 img = foldl (sampleStep msd r0) ([], []) (scanOrder img)"

text \<open>
  What the source leaves undefined is an error value of the model: an integer
  division by zero, the conversion to \<open>int\<close> of a quotient whose divisor is zero,
  and \<open>first()\<close> of an empty list.
\<close>

datatype error = DivisionByZero | NotANumber | FirstOfEmpty

text \<open>
  The body of the loop over the clusters at the start of a refinement iteration.
  The channel sums are non-negative and the count is positive, so the truncating
  division of the source is \<open>div\<close>. The sums are \<open>int\<close> in the source; the model
  does not bound them (they stay below \<open>2^31\<close> for up to 8.4 million samples).
  \<open>n\<close> is the number of samples, which is positive wherever \<open>generatePalette\<close>
  gets here.
\<close>

definition updateCentroid :: "nat \<Rightarrow> colorStat \<Rightarrow> error + colorStat" where
  "updateCentroid n stat =
     (let c = int (length (colors stat));
          r = sum_list (map qRed (colors stat));
          g = sum_list (map qGreen (colors stat));
          b = sum_list (map qBlue (colors stat))
      in if c = 0 then Inl DivisionByZero
         else Inr \<lparr>colors = [qRgb (r div c) (g div c) (b div c)],
                   centroid = qRgb (r div c) (g div c) (b div c),
                   ratio = of_nat (length (colors stat)) / of_nat n\<rparr>)"

fun mapE :: "('a \<Rightarrow> error + 'b) \<Rightarrow> 'a list \<Rightarrow> error + 'b list" where
  "mapE f [] = Inr []"
| "mapE f (x # xs) =
     (case f x of Inl e \<Rightarrow> Inl e
      | Inr y \<Rightarrow> (case mapE f xs of Inl e \<Rightarrow> Inl e | Inr ys \<Rightarrow> Inr (y # ys)))"

definition refineIteration ::
  "int \<Rightarrow> rat \<Rightarrow> QRgb list \<Rightarrow> colorStat list \<Rightarrow> error + colorStat list" where
  "refineIteration msd r0 samples clusters =
     (case mapE (updateCentroid (length samples)) clusters of
        Inl e \<Rightarrow> Inl e
      | Inr updated \<Rightarrow> Inr (positionAll msd r0 samples updated))"

fun refine :: "nat \<Rightarrow> int \<Rightarrow> rat \<Rightarrow> QRgb list \<Rightarrow> colorStat list \<Rightarrow> error + colorStat list" where
  "refine 0 msd r0 samples clusters = Inr clusters"
| "refine (Suc k) msd r0 samples clusters =
     (case refineIteration msd r0 samples clusters of
        Inl e \<Rightarrow> Inl e
      | Inr clusters' \<Rightarrow> refine k msd r0 samples clusters')"

section \<open>Sorting\<close>

text \<open>
  The source calls \<open>std::sort\<close> with the comparison
  \<open>a.colors.size() > b.colors.size()\<close>. The library promises a permutation in which
  no later element compares before an earlier one, and nothing about the order of
  elements that compare equal. The sort is therefore a parameter \<open>srt\<close>, and
  \<open>std_sort_post\<close> is what the library promises of it. \<open>stableSort\<close> is one
  function that keeps the promise (it keeps equal elements in their order);
  \<open>reversingSort\<close> is another (it reverses them).
\<close>

definition memberCount :: "colorStat \<Rightarrow> nat" where
  "memberCount stat = length (colors stat)"

definition std_sort_post :: "(colorStat list \<Rightarrow> colorStat list) \<Rightarrow> bool" where
  "std_sort_post srt \<longleftrightarrow>
     (\<forall>cs. mset (srt cs) = mset cs \<and> sorted_wrt (\<lambda>a b. \<not> memberCount a < memberCount b) (srt cs))"

fun insertDesc :: "colorStat \<Rightarrow> colorStat list \<Rightarrow> colorStat list" where
  "insertDesc x [] = [x]"
| "insertDesc x (y # ys) =
     (if memberCount y \<le> memberCount x then x # y # ys else y # insertDesc x ys)"

definition stableSort :: "colorStat list \<Rightarrow> colorStat list" where
  "stableSort cs = foldr insertDesc cs []"

definition reversingSort :: "colorStat list \<Rightarrow> colorStat list" where
  "reversingSort cs = stableSort (rev cs)"

section \<open>The merge pass\<close>

text \<open>
  Conversion of a \<open>qreal\<close> to \<open>int\<close> truncates towards zero. (It is defined for
  values within the range of \<open>int\<close>; the model does not bound them.)
\<close>

definition toInt :: "rat \<Rightarrow> int" where
  "toInt q = (if 0 \<le> q then \<lfloor>q\<rfloor> else \<lceil>q\<rceil>)"

text \<open>
  Folding the source cluster into the destination. The mixing weight is the
  quotient of the two ratios; with a destination ratio of zero the quotient is
  infinite or not a number and its conversion to \<open>int\<close> is undefined. The three
  channels are computed from the old ratio and the old centroids, then the ratio and
  the centroid of the destination are assigned. The products and sums are doubles in
  the source and exact rationals here.
\<close>

definition mix :: "rat \<Rightarrow> int \<Rightarrow> int \<Rightarrow> int" where
  "mix w s d = toInt (w * of_int s + (1 - w) * of_int d)"

definition mergeInto :: "colorStat \<Rightarrow> colorStat \<Rightarrow> error + colorStat" where
  "mergeInto src dst =
     (if ratio dst = 0 then Inl NotANumber
      else let w = ratio src / ratio dst;
               r = mix w (qRed (centroid src)) (qRed (centroid dst));
               g = mix w (qGreen (centroid src)) (qGreen (centroid dst));
               b = mix w (qBlue (centroid src)) (qBlue (centroid dst))
           in Inr (dst\<lparr>ratio := ratio dst + ratio src, centroid := qRgb r g b\<rparr>))"

text \<open>
  The inner loop: the index of the first cluster, among those before the source,
  whose centroid is nearer to the source's than the threshold. The source's
  centroid is the first argument of the distance.
\<close>

fun findDest :: "int \<Rightarrow> QRgb \<Rightarrow> colorStat list \<Rightarrow> nat \<Rightarrow> nat option" where
  "findDest msd c [] j = None"
| "findDest msd c (dst # rest) j =
     (if squareDistance c (centroid dst) < msd then Some j
      else findDest msd c rest (Suc j))"

text \<open>
  One round of the outer loop, for the source at index \<open>i\<close>. The state is the
  cluster list and \<open>itemsToDelete\<close>, kept as indices in the order they were appended.
\<close>

definition mergeSource ::
  "int \<Rightarrow> nat \<Rightarrow> colorStat list \<times> nat list \<Rightarrow> error + colorStat list \<times> nat list" where
  "mergeSource msd i st =
     (case findDest msd (centroid (fst st ! i)) (take i (fst st)) 0 of
        None \<Rightarrow> Inr st
      | Some j \<Rightarrow>
          (case mergeInto (fst st ! i) (fst st ! j) of
             Inl e \<Rightarrow> Inl e
           | Inr dst \<Rightarrow> Inr ((fst st)[j := dst], snd st @ [i])))"

text \<open>
  The outer loop starts at the end of the list and steps the source back to the
  first cluster, for which the inner loop does nothing. \<open>mergeLoop msd k\<close> handles
  the sources at the indices \<open>k - 1, ..., 0\<close>.
\<close>

fun mergeLoop ::
  "int \<Rightarrow> nat \<Rightarrow> colorStat list \<times> nat list \<Rightarrow> error + colorStat list \<times> nat list" where
  "mergeLoop msd 0 st = Inr st"
| "mergeLoop msd (Suc i) st =
     (case mergeSource msd i st of
        Inl e \<Rightarrow> Inl e
      | Inr st' \<Rightarrow> mergeLoop msd i st')"

text \<open>
  The marked clusters are erased in the order they were marked, which is by
  decreasing index, so an erasure leaves the indices still to be erased in place.
  (The source erases through stored iterators; the model takes each iterator to
  keep denoting its cluster. In the examples below at most one cluster is marked,
  so no iterator is used after an erasure.)
\<close>

definition eraseAt :: "nat \<Rightarrow> 'a list \<Rightarrow> 'a list" where
  "eraseAt i xs = take i xs @ drop (Suc i) xs"

definition mergePass :: "int \<Rightarrow> colorStat list \<Rightarrow> error + colorStat list" where
  "mergePass msd clusters =
     (case mergeLoop msd (length clusters) (clusters, []) of
        Inl e \<Rightarrow> Inl e
      | Inr st \<Rightarrow> Inr (foldl (\<lambda>xs i. eraseAt i xs) (fst st) (snd st)))"

text \<open>Sampling, five refinement iterations, the sort and the merge pass.\<close>

definition finalClusters ::
  "int \<Rightarrow> rat \<Rightarrow> (colorStat list \<Rightarrow> colorStat list) \<Rightarrow> QRgb list \<Rightarrow> colorStat list
     \<Rightarrow> error + colorStat list" where
  "finalClusters msd r0 srt samples clusters =
     (case refine 5 msd r0 samples clusters of
        Inl e \<Rightarrow> Inl e
      | Inr refined \<Rightarrow> mergePass msd (srt refined))"

section \<open>Derived colours and the palette\<close>

text \<open>
  A palette entry is the map with the keys \<open>color\<close>, \<open>ratio\<close> and
  \<open>contrastColor\<close>.
\<close>

record paletteEntry =
  entry_color :: QColor
  entry_ratio :: rat
  entry_contrastColor :: QColor

text \<open>
  Modelled from the spec: the declaration of \<open>ImageData\<close> is in \<^verbatim>\<open>imagecolors.h\<close>,
  which is not among the sources. Its members are the ones \<open>generatePalette\<close>
  assigns; a freshly constructed \<open>ImageData\<close> is the spec's empty result, with an
  empty palette and default-constructed (invalid) colours.
\<close>

record ImageData =
  m_samples :: "QRgb list"
  m_clusters :: "colorStat list"
  m_palette :: "paletteEntry list"
  m_dominant :: QColor
  m_mostSaturated :: QColor
  m_closestToBlack :: QColor
  m_closestToWhite :: QColor
  m_suggestedContrast :: QColor

definition defaultImageData :: ImageData where
  "defaultImageData =
     \<lparr>m_samples = [], m_clusters = [], m_palette = [],
      m_dominant = QColorInvalid, m_mostSaturated = QColorInvalid,
      m_closestToBlack = QColorInvalid, m_closestToWhite = QColorInvalid,
      m_suggestedContrast = QColorInvalid\<rparr>"

text \<open>
  The inner loop of the palette loop: the centroid nearest to the mirrored inverse
  colour, starting from an invalid colour and the distance 4681800.
\<close>

definition nearestStep :: "QRgb \<Rightarrow> QColor \<times> int \<Rightarrow> colorStat \<Rightarrow> QColor \<times> int" where
  "nearestStep contrastRgb acc stat =
     (let distance = squareDistance contrastRgb (centroid stat)
      in if distance < snd acc then (fromRgb (centroid stat), distance) else acc)"

definition nearestCentroid :: "QRgb \<Rightarrow> colorStat list \<Rightarrow> QColor" where
  "nearestCentroid contrastRgb clusters =
     fst (foldl (nearestStep contrastRgb) (QColorInvalid, 4681800) clusters)"

text \<open>
  The contrast colour of one cluster. The two lightness operations on a \<open>QColor\<close>
  go through Qt's HSL conversion, which is outside the sources; they are the
  parameters \<open>mirrorLightness\<close> (hue and saturation kept, lightness \<open>l\<close> set to
  \<open>128 + (128 - l)\<close>) and \<open>nudgeLightness\<close> (lightness moved by 20 away from 128).
  The comparison with one and a half times the threshold is between an \<open>int\<close> and a
  double in the source.
\<close>

definition contrastColor ::
  "int \<Rightarrow> (QColor \<Rightarrow> QColor) \<Rightarrow> (QColor \<Rightarrow> QColor) \<Rightarrow> colorStat list \<Rightarrow> QColor
     \<Rightarrow> QColor \<Rightarrow> QColor" where
  "contrastColor msd mirrorLightness nudgeLightness clusters dominant color =
     (let contrast = mirrorLightness
            (fromChannels (255 - red color) (255 - green color) (255 - blue color));
          tempContrast = nearestCentroid (rgb contrast) clusters
      in if length clusters < 3
         then (if qGray (rgb dominant) < 120 then fromChannels 230 230 230
               else fromChannels 20 20 20)
         else if (of_int (squareDistance (rgb contrast) (rgb tempContrast)) :: rat)
                   < of_int msd * (3 / 2)
         then tempContrast
         else nudgeLightness tempContrast)"

definition saturationScore :: "QColor \<Rightarrow> int" where
  "saturationScore c = hsvSaturation c + (158 - \<bar>158 - hsvValue c\<bar>)"

text \<open>
  The body of the palette loop. The state is the result under construction and the
  flag \<open>first\<close>; the cluster list and the dominant colour are read from the result
  and do not change in the loop.
\<close>

definition paletteStep ::
  "int \<Rightarrow> (QColor \<Rightarrow> QColor) \<Rightarrow> (QColor \<Rightarrow> QColor) \<Rightarrow> ImageData \<times> bool \<Rightarrow> colorStat
     \<Rightarrow> ImageData \<times> bool" where
  "paletteStep msd mirrorLightness nudgeLightness st stat =
     (let imageData = fst st;
          color = fromRgb (centroid stat);
          contrast = contrastColor msd mirrorLightness nudgeLightness
                       (m_clusters imageData) (m_dominant imageData) color;
          entry = \<lparr>entry_color = color, entry_ratio = ratio stat,
                   entry_contrastColor = contrast\<rparr>;
          d1 = (if snd st then imageData\<lparr>m_suggestedContrast := contrast\<rparr> else imageData);
          d2 = (if saturationScore color > saturationScore (m_mostSaturated d1)
                then d1\<lparr>m_mostSaturated := color\<rparr> else d1);
          d3 = (if qGray (rgb color) > qGray (rgb (m_closestToWhite d2))
                then d2\<lparr>m_closestToWhite := color\<rparr> else d2);
          d4 = (if qGray (rgb color) < qGray (rgb (m_closestToBlack d3))
                then d3\<lparr>m_closestToBlack := color\<rparr> else d3)
      in (d4\<lparr>m_palette := m_palette d4 @ [entry]\<rparr>, False))"

text \<open>
  The derived colours over the final cluster list: the seeds are an invalid colour
  for the most saturated one, white for the closest to black and black for the
  closest to white; the dominant colour is the first centroid.
\<close>

definition deriveColors ::
  "int \<Rightarrow> (QColor \<Rightarrow> QColor) \<Rightarrow> (QColor \<Rightarrow> QColor) \<Rightarrow> QRgb list \<Rightarrow> colorStat list
     \<Rightarrow> error + ImageData" where
  "deriveColors msd mirrorLightness nudgeLightness samples clusters =
     (case clusters of
        [] \<Rightarrow> Inl FirstOfEmpty
      | firstStat # _ \<Rightarrow>
          Inr (fst (foldl (paletteStep msd mirrorLightness nudgeLightness)
                 (defaultImageData
                    \<lparr>m_samples := samples, m_clusters := clusters,
                     m_mostSaturated := QColorInvalid,
                     m_dominant := fromRgb (centroid firstStat),
                     m_closestToBlack := fromChannels 255 255 255,
                     m_closestToWhite := fromChannels 0 0 0,
                     m_palette := []\<rparr>, True)
                 clusters)))"

text \<open>
  \<open>ImageColors::generatePalette\<close>. A null or zero-width image returns the fresh
  result at once, and so does an image without a sample, after the scan.
\<close>

definition generatePalette ::
  "int \<Rightarrow> rat \<Rightarrow> (colorStat list \<Rightarrow> colorStat list) \<Rightarrow> (QColor \<Rightarrow> QColor) \<Rightarrow> (QColor \<Rightarrow> QColor)
     \<Rightarrow> QImage \<Rightarrow> error + ImageData" where
  "generatePalette msd r0 srt mirrorLightness nudgeLightness sourceImage =
     (if isNull sourceImage \<or> width sourceImage = 0 then Inr defaultImageData
      else let scanned = collectSamples msd r0 sourceImage
           in if fst scanned = []
              then Inr (defaultImageData\<lparr>m_samples := fst scanned, m_clusters := snd scanned\<rparr>)
              else (case finalClusters msd r0 srt (fst scanned) (snd scanned) of
                      Inl e \<Rightarrow> Inl e
                    | Inr clusters \<Rightarrow>
                        deriveColors msd mirrorLightness nudgeLightness (fst scanned) clusters))"

section \<open>Measures and example images\<close>

text \<open>The number of members over all clusters.\<close>

definition totalMembers :: "colorStat list \<Rightarrow> nat" where
  "totalMembers clusters = sum_list (map memberCount clusters)"

text \<open>
  The examples below are evaluated at the threshold 32000 and the default ratio 0,
  with \<open>stableSort\<close> for the sort; none of them sorts two clusters of equal member
  count. Where a whole result is evaluated the final clusters are fewer than three,
  so the two lightness operations are not consulted and the identity stands in for
  them.
\<close>

text \<open>
  A 2 by 2 image whose four pixels are opaque \<open>(200, 100, 50)\<close>, that is
  \<open>0xffC86432\<close>.
\<close>

definition solidImage :: QImage where
  "solidImage =
     \<lparr>isNull = False, width = 2, height = 2, pixelColor = (\<lambda>x y. QColorArgb 0xffC86432)\<rparr>"

text \<open>The cluster that the scan of \<open>solidImage\<close> leaves, its ratio still unassigned.\<close>

definition solidCluster :: "rat \<Rightarrow> colorStat" where
  "solidCluster r0 = \<lparr>colors = replicate 4 0xffC86432, centroid = 0xffC86432, ratio = r0\<rparr>"

text \<open>A 1 by 1 image whose pixel is fully transparent, and one whose pixel is opaque black.\<close>

definition clearImage :: QImage where
  "clearImage =
     \<lparr>isNull = False, width = 1, height = 1, pixelColor = (\<lambda>x y. QColorArgb 0x00FFFFFF)\<rparr>"

definition blackImage :: QImage where
  "blackImage =
     \<lparr>isNull = False, width = 1, height = 1, pixelColor = (\<lambda>x y. QColorArgb 0xff000000)\<rparr>"

text \<open>
  Three readings of the palette loop, used to state what it computes: the entry it
  appends for a cluster, the update of the most saturated colour by one candidate,
  and whether a colour is black.
\<close>

definition paletteEntryOf ::
  "int \<Rightarrow> (QColor \<Rightarrow> QColor) \<Rightarrow> (QColor \<Rightarrow> QColor) \<Rightarrow> colorStat list \<Rightarrow> QColor \<Rightarrow> colorStat
     \<Rightarrow> paletteEntry" where
  "paletteEntryOf msd ml nl clusters dominant stat =
     \<lparr>entry_color = fromRgb (centroid stat), entry_ratio = ratio stat,
      entry_contrastColor = contrastColor msd ml nl clusters dominant (fromRgb (centroid stat))\<rparr>"

definition moreSaturated :: "QColor \<Rightarrow> QColor \<Rightarrow> QColor" where
  "moreSaturated best color =
     (if saturationScore color > saturationScore best then color else best)"

definition isBlack :: "QRgb \<Rightarrow> bool" where
  "isBlack c \<longleftrightarrow> qRed c = 0 \<and> qGreen c = 0 \<and> qBlue c = 0"

text \<open>What \<open>generatePalette\<close> returns on \<open>solidImage\<close>.\<close>

definition solidResult :: ImageData where
  "solidResult =
     \<lparr>m_samples = replicate 4 0xffC86432,
      m_clusters = [\<lparr>colors = replicate 5 0xffC86432, centroid = 0xffC86432, ratio = 5 / 4\<rparr>],
      m_palette = [\<lparr>entry_color = QColorArgb 0xffC86432, entry_ratio = 5 / 4,
                    entry_contrastColor = fromChannels 20 20 20\<rparr>],
      m_dominant = QColorArgb 0xffC86432, m_mostSaturated = QColorArgb 0xffC86432,
      m_closestToBlack = QColorArgb 0xffC86432, m_closestToWhite = QColorArgb 0xffC86432,
      m_suggestedContrast = fromChannels 20 20 20\<rparr>"

text \<open>
  \<open>apart msd cs\<close>: the centroid of every cluster is at least the threshold away
  from the centroid of every earlier cluster, the distance taken from the later
  cluster to the earlier one, as the merge pass takes it.
\<close>

definition apart :: "int \<Rightarrow> colorStat list \<Rightarrow> bool" where
  "apart msd cs =
     list_all (\<lambda>i. list_all (\<lambda>d. msd \<le> squareDistance (centroid (cs ! i)) (centroid d)) (take i cs))
       [0..<length cs]"

text \<open>An image of width 1 whose column holds the given pixels.\<close>

definition columnImage :: "QRgb list \<Rightarrow> QImage" where
  "columnImage ps =
     \<lparr>isNull = False, width = 1, height = int (length ps),
      pixelColor = (\<lambda>x y. QColorArgb (ps ! nat y))\<rparr>"

text \<open>
  Eight pixels on which a merge moves a centroid towards a cluster that was compared
  with it before: the clusters the scan leaves, and the clusters after the five
  refinement iterations.
\<close>

definition driftPixels :: "QRgb list" where
  "driftPixels = [qRgb 152 100 8, qRgb 60 164 20, qRgb 92 152 88, qRgb 60 164 20,
     qRgb 92 152 88, qRgb 152 100 8, qRgb 180 144 104, qRgb 60 164 20]"

definition driftScanned :: "colorStat list" where
  "driftScanned =
    [\<lparr>colors = [qRgb 152 100 8, qRgb 152 100 8], centroid = qRgb 152 100 8, ratio = 0\<rparr>,
     \<lparr>colors = [qRgb 60 164 20, qRgb 92 152 88, qRgb 60 164 20, qRgb 92 152 88, qRgb 60 164 20],
        centroid = qRgb 60 164 20, ratio = 0\<rparr>,
     \<lparr>colors = [qRgb 180 144 104], centroid = qRgb 180 144 104, ratio = 0\<rparr>]"

definition driftRefined :: "colorStat list" where
  "driftRefined =
    [\<lparr>colors = [qRgb 152 100 8, qRgb 152 100 8, qRgb 152 100 8], centroid = qRgb 152 100 8,
        ratio = 3 / 8\<rparr>,
     \<lparr>colors = [qRgb 72 159 47, qRgb 60 164 20, qRgb 92 152 88, qRgb 60 164 20, qRgb 92 152 88,
          qRgb 60 164 20], centroid = qRgb 72 159 47, ratio = 3 / 4\<rparr>,
     \<lparr>colors = [qRgb 180 144 104, qRgb 180 144 104], centroid = qRgb 180 144 104,
        ratio = 1 / 4\<rparr>]"

definition driftFinal :: "colorStat list" where
  "driftFinal =
    [\<lparr>colors = [qRgb 72 159 47, qRgb 60 164 20, qRgb 92 152 88, qRgb 60 164 20, qRgb 92 152 88,
          qRgb 60 164 20], centroid = qRgb 112 129 27, ratio = 9 / 8\<rparr>,
     \<lparr>colors = [qRgb 180 144 104, qRgb 180 144 104], centroid = qRgb 180 144 104,
        ratio = 1 / 4\<rparr>]"

text \<open>Two clusters far from each other: pure red and pure blue.\<close>

definition farPair :: "colorStat list" where
  "farPair =
    [\<lparr>colors = [qRgb 255 0 0, qRgb 255 0 0], centroid = qRgb 255 0 0, ratio = 1 / 2\<rparr>,
     \<lparr>colors = [qRgb 0 0 255, qRgb 0 0 255], centroid = qRgb 0 0 255, ratio = 1 / 2\<rparr>]"

text \<open>
  Eight pixels on which the merge pass leaves the second cluster with the larger
  ratio: the clusters after the scan, after the refinement and after the merge pass.
\<close>

definition swapPixels :: "QRgb list" where
  "swapPixels = [qRgb 255 0 120, qRgb 255 0 120, qRgb 120 128 130, qRgb 190 200 100,
     qRgb 190 190 200, qRgb 255 0 120, qRgb 190 200 100, qRgb 255 0 120]"

definition swapScanned :: "colorStat list" where
  "swapScanned =
    [\<lparr>colors = [qRgb 255 0 120, qRgb 255 0 120, qRgb 255 0 120, qRgb 255 0 120],
        centroid = qRgb 255 0 120, ratio = 0\<rparr>,
     \<lparr>colors = [qRgb 120 128 130], centroid = qRgb 120 128 130, ratio = 0\<rparr>,
     \<lparr>colors = [qRgb 190 200 100, qRgb 190 190 200, qRgb 190 200 100],
        centroid = qRgb 190 200 100, ratio = 0\<rparr>]"

definition swapRefined :: "colorStat list" where
  "swapRefined =
    [\<lparr>colors = [qRgb 255 0 120, qRgb 255 0 120, qRgb 255 0 120, qRgb 255 0 120, qRgb 255 0 120],
        centroid = qRgb 255 0 120, ratio = 5 / 8\<rparr>,
     \<lparr>colors = [qRgb 120 128 130, qRgb 120 128 130], centroid = qRgb 120 128 130,
        ratio = 1 / 4\<rparr>,
     \<lparr>colors = [qRgb 190 196 133, qRgb 190 200 100, qRgb 190 190 200, qRgb 190 200 100],
        centroid = qRgb 190 196 133, ratio = 1 / 2\<rparr>]"

definition swapFinal :: "colorStat list" where
  "swapFinal =
    [\<lparr>colors = [qRgb 255 0 120, qRgb 255 0 120, qRgb 255 0 120, qRgb 255 0 120, qRgb 255 0 120],
        centroid = qRgb 255 0 120, ratio = 5 / 8\<rparr>,
     \<lparr>colors = [qRgb 190 196 133, qRgb 190 200 100, qRgb 190 190 200, qRgb 190 200 100],
        centroid = qRgb 155 162 131, ratio = 3 / 4\<rparr>]"





text \<open>Two clusters with the same number of members.\<close>

definition tiePair :: "colorStat list" where
  "tiePair =
    [\<lparr>colors = [qRgb 255 0 0], centroid = qRgb 255 0 0, ratio = 1 / 2\<rparr>,
     \<lparr>colors = [qRgb 0 0 255], centroid = qRgb 0 0 255, ratio = 1 / 2\<rparr>]"

section \<open>Theorems\<close>

subsection \<open>Members of the clusters\<close>

lemma positionColor_total:
  "totalMembers (positionColor msd r0 c cs) = Suc (totalMembers cs)"
  by (induction cs) (simp_all add: totalMembers_def memberCount_def)

lemma positionAll_total:
  "totalMembers (positionAll msd r0 samples cs) = totalMembers cs + length samples"
  unfolding positionAll_def
  by (induction samples arbitrary: cs) (simp_all add: positionColor_total)

lemma positionColor_members:
  "mset (concat (map colors (positionColor msd r0 c cs))) = add_mset c (mset (concat (map colors cs)))"
  by (induction cs) simp_all

lemma positionAll_members:
  "mset (concat (map colors (positionAll msd r0 samples cs)))
     = mset (concat (map colors cs)) + mset samples"
  unfolding positionAll_def
  by (induction samples arbitrary: cs) (simp_all add: positionColor_members)

lemma positionColor_length: "length cs \<le> length (positionColor msd r0 c cs)"
  by (induction cs) simp_all

lemma positionColor_take_centroid:
  "map centroid (take (length cs) (positionColor msd r0 c cs)) = map centroid cs"
  by (induction cs) simp_all

lemma positionColor_nonempty:
  "list_all (\<lambda>s. colors s \<noteq> []) cs \<Longrightarrow> list_all (\<lambda>s. colors s \<noteq> []) (positionColor msd r0 c cs)"
  by (induction cs) simp_all

lemma positionAll_nonempty:
  "list_all (\<lambda>s. colors s \<noteq> []) cs \<Longrightarrow> list_all (\<lambda>s. colors s \<noteq> []) (positionAll msd r0 samples cs)"
  unfolding positionAll_def
  by (induction samples arbitrary: cs) (simp_all add: positionColor_nonempty)


lemma take_take_le: "n \<le> m \<Longrightarrow> take n (take m xs) = take n xs"
  by (simp add: min_def)

lemma positionAll_take_centroid:
  "map centroid (take (length cs) (positionAll msd r0 samples cs)) = map centroid cs"
  unfolding positionAll_def
proof (induction samples arbitrary: cs)
  case Nil
  show ?case by simp
next
  case (Cons c samples)
  let ?cs1 = "positionColor msd r0 c cs"
  let ?res = "foldl (\<lambda>cs rgb. positionColor msd r0 rgb cs) ?cs1 samples"
  have le: "length cs \<le> length ?cs1" by (rule positionColor_length)
  have "map centroid (take (length cs) ?res) = take (length cs) (map centroid (take (length ?cs1) ?res))"
    using le by (simp add: take_map take_take_le)
  also have "\<dots> = take (length cs) (map centroid ?cs1)"
    by (simp only: Cons.IH)
  also have "\<dots> = map centroid cs"
    by (simp add: take_map positionColor_take_centroid)
  finally show ?case by simp
qed

lemma collect_fold:
  "foldl (sampleStep msd r0) (ss, cs) xs =
     (ss @ map rgb (filter (\<lambda>c. alpha c \<noteq> 0) xs),
      positionAll msd r0 (map rgb (filter (\<lambda>c. alpha c \<noteq> 0) xs)) cs)"
  by (induction xs arbitrary: ss cs) (simp_all add: sampleStep_def positionAll_def)

lemma collectSamples_eq:
  "collectSamples msd r0 img =
     (map rgb (filter (\<lambda>c. alpha c \<noteq> 0) (scanOrder img)),
      positionAll msd r0 (map rgb (filter (\<lambda>c. alpha c \<noteq> 0) (scanOrder img))) [])"
  by (simp add: collectSamples_def collect_fold)

lemma mapE_updateCentroid:
  "list_all (\<lambda>s. colors s \<noteq> []) cs \<Longrightarrow>
   \<exists>us. mapE (updateCentroid n) cs = Inr us \<and> length us = length cs
      \<and> list_all (\<lambda>s. colors s = [centroid s]) us"
proof (induction cs)
  case Nil
  show ?case by simp
next
  case (Cons s cs)
  then obtain us where us: "mapE (updateCentroid n) cs = Inr us" "length us = length cs"
      "list_all (\<lambda>s. colors s = [centroid s]) us"
    by auto
  from Cons.prems have "colors s \<noteq> []" by simp
  then obtain u where u: "updateCentroid n s = Inr u" "colors u = [centroid u]"
    by (simp add: updateCentroid_def Let_def)
  show ?case using us u by simp
qed

lemma seeds_members:
  "list_all (\<lambda>s. colors s = [centroid s]) us \<Longrightarrow> concat (map colors us) = map centroid us"
  by (induction us) simp_all

lemma seeds_nonempty:
  "list_all (\<lambda>s. colors s = [centroid s]) us \<Longrightarrow> list_all (\<lambda>s. colors s \<noteq> []) us"
  by (induction us) simp_all

lemma seeds_total:
  "list_all (\<lambda>s. colors s = [centroid s]) us \<Longrightarrow> totalMembers us = length us"
  by (induction us) (simp_all add: totalMembers_def memberCount_def)


lemma scan_solid: "scanOrder solidImage = replicate 4 (QColorArgb 0xffC86432)"
  by (simp add: scanOrder_def solidImage_def upto.simps numeral_eq_Suc)

lemma collect_solid:
  "0 < msd \<Longrightarrow> collectSamples msd r0 solidImage = (replicate 4 0xffC86432, [solidCluster r0])"
  apply (simp add: collectSamples_def scan_solid sampleStep_def numeral_eq_Suc solidCluster_def)
  apply (simp add: qAlpha_def qRgb_def qRed_def qGreen_def qBlue_def squareDistance_def)
  done

lemma refineIteration_members:
  assumes ne: "list_all (\<lambda>s. colors s \<noteq> []) cs"
  shows "\<exists>cs'. refineIteration msd r0 samples cs = Inr cs'
        \<and> list_all (\<lambda>s. colors s \<noteq> []) cs'
        \<and> totalMembers cs' = length samples + length cs
        \<and> mset (concat (map colors cs'))
            = mset samples + mset (map centroid (take (length cs) cs'))"
proof -
  from mapE_updateCentroid [OF ne, of "length samples"]
  obtain us where us: "mapE (updateCentroid (length samples)) cs = Inr us" "length us = length cs"
      "list_all (\<lambda>s. colors s = [centroid s]) us"
    by blast
  let ?cs' = "positionAll msd r0 samples us"
  have r: "refineIteration msd r0 samples cs = Inr ?cs'"
    by (simp add: refineIteration_def us(1))
  have n: "list_all (\<lambda>s. colors s \<noteq> []) ?cs'"
    by (rule positionAll_nonempty) (rule seeds_nonempty [OF us(3)])
  have t: "totalMembers ?cs' = length samples + length cs"
    by (simp add: positionAll_total seeds_total [OF us(3)] us(2))
  have "map centroid (take (length cs) ?cs') = map centroid us"
    using positionAll_take_centroid [of us msd r0 samples] by (simp add: us(2))
  then have m: "mset (concat (map colors ?cs')) = mset samples + mset (map centroid (take (length cs) ?cs'))"
    by (simp add: positionAll_members seeds_members [OF us(3)])
  show ?thesis
    using r n t m by blast
qed

text \<open>
  C2, as amended. The scan leaves clusters whose members are exactly the samples:
  their number is the number of samples and, as multisets, the members are the
  samples. A refinement iteration on clusters that all have a member succeeds; its
  clusters hold the samples and, in addition, one seed for every cluster that
  existed when the iteration began (that cluster's new centroid), so their number
  is the number of samples plus the number of those clusters. Every cluster again
  has a member, so the statement applies to each of the five iterations in turn.
\<close>

theorem refinement_pass_members:
  "totalMembers (snd (collectSamples msd r0 img)) = length (fst (collectSamples msd r0 img)) \<and>
   mset (concat (map colors (snd (collectSamples msd r0 img)))) = mset (fst (collectSamples msd r0 img)) \<and>
   (list_all (\<lambda>s. colors s \<noteq> []) cs \<longrightarrow>
     (\<exists>cs'. refineIteration msd r0 samples cs = Inr cs'
        \<and> list_all (\<lambda>s. colors s \<noteq> []) cs'
        \<and> totalMembers cs' = length samples + length cs
        \<and> mset (concat (map colors cs'))
            = mset samples + mset (map centroid (take (length cs) cs'))))"
proof (intro conjI impI)
  show "totalMembers (snd (collectSamples msd r0 img)) = length (fst (collectSamples msd r0 img))"
    using positionAll_total [of msd r0 "fst (collectSamples msd r0 img)" "[]"]
    by (simp add: collectSamples_eq totalMembers_def)
  show "mset (concat (map colors (snd (collectSamples msd r0 img)))) = mset (fst (collectSamples msd r0 img))"
    by (simp add: collectSamples_eq positionAll_members)
next
  assume "list_all (\<lambda>s. colors s \<noteq> []) cs"
  then show "\<exists>cs'. refineIteration msd r0 samples cs = Inr cs'
        \<and> list_all (\<lambda>s. colors s \<noteq> []) cs'
        \<and> totalMembers cs' = length samples + length cs
        \<and> mset (concat (map colors cs'))
            = mset samples + mset (map centroid (take (length cs) cs'))"
    by (rule refineIteration_members)
qed

theorem refinement_pass_members_witness:
  "list_all (\<lambda>s. colors s \<noteq> []) [solidCluster 0] \<and>
   totalMembers (snd (collectSamples 32000 0 solidImage))
     = length (fst (collectSamples 32000 0 solidImage)) \<and>
   (\<exists>cs'. refineIteration 32000 0 (replicate 4 0xffC86432) [solidCluster 0] = Inr cs'
        \<and> totalMembers cs' = 4 + 1)"
  using refinement_pass_members [of 32000 0 solidImage "[solidCluster 0]" "replicate 4 0xffC86432"]
  by (auto simp: solidCluster_def)

text \<open>
  C2 as stated fails: the scan of \<open>solidImage\<close> yields 4 samples, and after the first
  refinement iteration the clusters have 5 members.
\<close>

theorem partition_counterexample:
  "length (fst (collectSamples 32000 0 solidImage)) = 4 \<and>
   (case refineIteration 32000 0 (fst (collectSamples 32000 0 solidImage))
           (snd (collectSamples 32000 0 solidImage)) of
      Inl e \<Rightarrow> False
    | Inr cs' \<Rightarrow> totalMembers cs' = 5)"
  by (simp add: collect_solid) code_simp

subsection \<open>The distance\<close>

text \<open>
  C9. The two orders of the arguments differ by the difference of the squared red
  and blue differences, with a sign, exactly when one red channel exceeds the other
  by 128 or more: the weights \<open>(3, 4, 2)\<close> are used only when the first colour's red
  channel exceeds the second's by at least 128, a test on the signed difference. So
  the distance is not symmetric: red against a dark blue gives 215075 one way and
  160050 the other.
\<close>

theorem squareDistance_not_symmetric:
  "squareDistance a b - squareDistance b a =
     (if 128 \<le> qRed a - qRed b then (qRed a - qRed b)\<^sup>2 - (qBlue a - qBlue b)\<^sup>2
      else if 128 \<le> qRed b - qRed a then (qBlue a - qBlue b)\<^sup>2 - (qRed a - qRed b)\<^sup>2
      else 0) \<and>
   squareDistance (qRgb 255 0 0) (qRgb 0 0 100) = 215075 \<and>
   squareDistance (qRgb 0 0 100) (qRgb 255 0 0) = 160050 \<and>
   (\<exists>c d. squareDistance c d \<noteq> squareDistance d c)"
proof (intro conjI)
  show "squareDistance a b - squareDistance b a =
     (if 128 \<le> qRed a - qRed b then (qRed a - qRed b)\<^sup>2 - (qBlue a - qBlue b)\<^sup>2
      else if 128 \<le> qRed b - qRed a then (qBlue a - qBlue b)\<^sup>2 - (qRed a - qRed b)\<^sup>2
      else 0)"
    by (simp add: squareDistance_def power2_commute [of "qRed b" "qRed a"]
        power2_commute [of "qGreen b" "qGreen a"] power2_commute [of "qBlue b" "qBlue a"])
  show f: "squareDistance (qRgb 255 0 0) (qRgb 0 0 100) = 215075"
    by (simp add: squareDistance_def qRed_def qGreen_def qBlue_def qRgb_def)
  show g: "squareDistance (qRgb 0 0 100) (qRgb 255 0 0) = 160050"
    by (simp add: squareDistance_def qRed_def qGreen_def qBlue_def qRgb_def)
  from f g have "squareDistance (qRgb 255 0 0) (qRgb 0 0 100)
      \<noteq> squareDistance (qRgb 0 0 100) (qRgb 255 0 0)"
    by simp
  then show "\<exists>c d. squareDistance c d \<noteq> squareDistance d c"
    by blast
qed

subsection \<open>Channels\<close>

lemma ff_mask: "(0xff :: 32 word) = mask 8"
  by (simp add: mask_eq_exp_minus_1)

lemma red_word:
  "drop_bit 16 (push_bit 24 (0xff :: 32 word) OR push_bit 16 (R AND 0xff) OR push_bit 8 (G AND 0xff) OR (B AND 0xff)) AND 0xff
     = R AND 0xff"
  unfolding ff_mask
  by (rule bit_word_eqI) (auto simp: bit_simps)

lemma green_word:
  "drop_bit 8 (push_bit 24 (0xff :: 32 word) OR push_bit 16 (R AND 0xff) OR push_bit 8 (G AND 0xff) OR (B AND 0xff)) AND 0xff
     = G AND 0xff"
  unfolding ff_mask
  by (rule bit_word_eqI) (auto simp: bit_simps)

lemma blue_word:
  "(push_bit 24 (0xff :: 32 word) OR push_bit 16 (R AND 0xff) OR push_bit 8 (G AND 0xff) OR (B AND 0xff)) AND 0xff
     = B AND 0xff"
  unfolding ff_mask
  by (rule bit_word_eqI) (auto simp: bit_simps)

lemma low_byte: "0 \<le> r \<Longrightarrow> r \<le> 255 \<Longrightarrow> uint ((word_of_int r :: 32 word) AND 0xff) = r"
proof -
  assume r: "0 \<le> r" "r \<le> 255"
  have "uint ((word_of_int r :: 32 word) AND mask 8) = take_bit 8 (uint (word_of_int r :: 32 word))"
    by (simp add: unsigned_take_bit_eq flip: take_bit_eq_mask)
  also have "\<dots> = take_bit 8 r"
    by (simp add: uint_word_of_int_eq)
  also have "\<dots> = r"
    using r by (simp add: take_bit_eq_mod)
  finally show ?thesis by (simp add: ff_mask)
qed


lemma channel_bounds:
  "0 \<le> qRed c" "qRed c \<le> 255" "0 \<le> qGreen c" "qGreen c \<le> 255" "0 \<le> qBlue c" "qBlue c \<le> 255"
proof -
  have b: "uint (w AND 0xff) \<le> 255" for w :: "32 word"
  proof -
    have "w AND 0xff \<le> 0xff" by (rule word_and_le1)
    then have "uint (w AND 0xff) \<le> uint (0xff :: 32 word)" by (simp add: word_le_def)
    then show ?thesis by simp
  qed
  show "0 \<le> qRed c" "0 \<le> qGreen c" "0 \<le> qBlue c"
    by (simp_all add: qRed_def qGreen_def qBlue_def)
  show "qRed c \<le> 255" "qGreen c \<le> 255" "qBlue c \<le> 255"
    unfolding qRed_def qGreen_def qBlue_def by (rule b)+
qed


subsection \<open>The sort\<close>

lemma insertDesc_mset: "mset (insertDesc x ys) = add_mset x (mset ys)"
  by (induction ys) simp_all

lemma insertDesc_set: "set (insertDesc x ys) = insert x (set ys)"
  by (induction ys) auto

lemma insertDesc_sorted:
  "sorted_wrt (\<lambda>a b. \<not> memberCount a < memberCount b) ys \<Longrightarrow>
   sorted_wrt (\<lambda>a b. \<not> memberCount a < memberCount b) (insertDesc x ys)"
  by (induction ys) (auto simp: insertDesc_set)

lemma stableSort_mset: "mset (stableSort cs) = mset cs"
  unfolding stableSort_def by (induction cs) (simp_all add: insertDesc_mset)

lemma stableSort_sorted: "sorted_wrt (\<lambda>a b. \<not> memberCount a < memberCount b) (stableSort cs)"
  unfolding stableSort_def by (induction cs) (simp_all add: insertDesc_sorted)

lemma std_sort_post_stableSort: "std_sort_post stableSort"
  by (simp add: std_sort_post_def stableSort_mset stableSort_sorted)

lemma std_sort_post_reversingSort: "std_sort_post reversingSort"
  by (simp add: std_sort_post_def reversingSort_def stableSort_mset stableSort_sorted)


subsection \<open>Images without a sample\<close>

lemma defaultImageData_cleared:
  "defaultImageData\<lparr>m_samples := [], m_clusters := []\<rparr> = defaultImageData"
  by (simp add: defaultImageData_def)

text \<open>
  C7. A null image, an image of width 0 and an image none of whose pixels has a
  non-zero alpha all yield the freshly constructed result: an empty palette and
  default (invalid) colours. The outcome is a value, not an error: no division by
  zero and no undefined conversion is met on the way.
\<close>

theorem empty_result:
  "isNull img \<or> width img = 0 \<or> list_all (\<lambda>c. alpha c = 0) (scanOrder img) \<Longrightarrow>
   generatePalette msd r0 srt ml nl img = Inr defaultImageData"
proof (cases "isNull img \<or> width img = 0")
  case True
  then show ?thesis by (simp add: generatePalette_def)
next
  case False
  assume "isNull img \<or> width img = 0 \<or> list_all (\<lambda>c. alpha c = 0) (scanOrder img)"
  with False have "list_all (\<lambda>c. alpha c = 0) (scanOrder img)" by blast
  then have "filter (\<lambda>c. alpha c \<noteq> 0) (scanOrder img) = []"
    by (simp add: list_all_iff filter_empty_conv)
  then have "collectSamples msd r0 img = ([], [])"
    by (simp add: collectSamples_eq positionAll_def)
  then show ?thesis
    using False by (simp add: generatePalette_def defaultImageData_cleared)
qed

theorem empty_result_witness:
  "list_all (\<lambda>c. alpha c = 0) (scanOrder clearImage) \<and>
   generatePalette 32000 0 stableSort id id clearImage = Inr defaultImageData"
proof -
  have h: "list_all (\<lambda>c. alpha c = 0) (scanOrder clearImage)"
    by (simp add: scanOrder_def clearImage_def upto.simps qAlpha_def)
  show ?thesis using h empty_result [of clearImage 32000 0 stableSort id id] by simp
qed


subsection \<open>The uniform image\<close>

lemma sort_single: "std_sort_post srt \<Longrightarrow> srt [x] = [x]"
proof -
  assume "std_sort_post srt"
  then have "mset (srt [x]) = mset [x]" unfolding std_sort_post_def by blast
  then show ?thesis by simp
qed

lemma mergePass_single: "mergePass msd [x] = Inr [x]"
  by (simp add: mergePass_def mergeSource_def)

lemma refine_solid_first:
  "0 < msd \<Longrightarrow> refineIteration msd r0 (replicate 4 0xffC86432) [solidCluster r]
     = Inr [\<lparr>colors = replicate 5 0xffC86432, centroid = 0xffC86432, ratio = 1\<rparr>]"
  apply (simp add: refineIteration_def updateCentroid_def solidCluster_def numeral_eq_Suc positionAll_def)
  apply (simp add: qRgb_def qRed_def qGreen_def qBlue_def squareDistance_def)
  done

lemma refine_solid_next:
  "0 < msd \<Longrightarrow> refineIteration msd r0 (replicate 4 0xffC86432)
       [\<lparr>colors = replicate 5 0xffC86432, centroid = 0xffC86432, ratio = r\<rparr>]
     = Inr [\<lparr>colors = replicate 5 0xffC86432, centroid = 0xffC86432, ratio = 5 / 4\<rparr>]"
  apply (simp add: refineIteration_def updateCentroid_def numeral_eq_Suc positionAll_def)
  apply (simp add: qRgb_def qRed_def qGreen_def qBlue_def squareDistance_def)
  done

lemma refine_solid:
  "0 < msd \<Longrightarrow> refine 5 msd r0 (replicate 4 0xffC86432) [solidCluster r0]
     = Inr [\<lparr>colors = replicate 5 0xffC86432, centroid = 0xffC86432, ratio = 5 / 4\<rparr>]"
proof -
  assume pos: "0 < msd"
  have five: "(5 :: nat) = Suc (Suc (Suc (Suc (Suc 0))))" by simp
  show ?thesis
    unfolding five by (simp add: refine_solid_first [OF pos] refine_solid_next [OF pos])
      (simp add: numeral_eq_Suc)
qed

lemma score_invalid: "saturationScore QColorInvalid = 0"
  by (simp add: saturationScore_def hsvSaturation_def hsvValue_def)

lemma score_solid: "saturationScore (fromRgb 0xffC86432) = 307"
  by code_simp

lemma gray_solid: "qGray (rgb (fromRgb 0xffC86432)) = 126"
  by code_simp

lemma gray_white: "qGray (rgb (fromChannels 255 255 255)) = 255"
  by code_simp

lemma gray_black: "qGray (rgb (fromChannels 0 0 0)) = 0"
  by code_simp

lemma fromRgb_solid: "fromRgb 0xffC86432 = QColorArgb 0xffC86432"
  by code_simp

lemma derive_solid:
  "deriveColors msd ml nl (replicate 4 0xffC86432)
      [\<lparr>colors = replicate 5 0xffC86432, centroid = 0xffC86432, ratio = 5 / 4\<rparr>] = Inr solidResult"
  by (simp add: deriveColors_def paletteStep_def contrastColor_def Let_def defaultImageData_def
      score_invalid score_solid gray_solid gray_white gray_black solidResult_def)
     (simp add: fromRgb_solid)

lemma generatePalette_solid:
  assumes "0 < msd" and "std_sort_post srt"
  shows "generatePalette msd r0 srt ml nl solidImage = Inr solidResult"
proof -
  have w: "width solidImage \<noteq> 0" "\<not> isNull solidImage"
    by (simp_all add: solidImage_def)
  have f: "finalClusters msd r0 srt (replicate 4 0xffC86432) [solidCluster r0]
     = Inr [\<lparr>colors = replicate 5 0xffC86432, centroid = 0xffC86432, ratio = 5 / 4\<rparr>]"
    by (simp add: finalClusters_def refine_solid [OF assms(1)] sort_single [OF assms(2)]
        mergePass_single)
  show ?thesis
    by (simp add: generatePalette_def w collect_solid [OF assms(1)] f derive_solid)
qed


subsection \<open>The palette loop\<close>

lemma paletteStep_fields:
  "m_clusters (fst (paletteStep msd ml nl st stat)) = m_clusters (fst st)"
  "m_dominant (fst (paletteStep msd ml nl st stat)) = m_dominant (fst st)"
  "m_samples (fst (paletteStep msd ml nl st stat)) = m_samples (fst st)"
  "m_palette (fst (paletteStep msd ml nl st stat)) =
     m_palette (fst st) @ [paletteEntryOf msd ml nl (m_clusters (fst st)) (m_dominant (fst st)) stat]"
  "m_mostSaturated (fst (paletteStep msd ml nl st stat)) =
     moreSaturated (m_mostSaturated (fst st)) (fromRgb (centroid stat))"
  by (simp_all add: paletteStep_def Let_def paletteEntryOf_def moreSaturated_def)

lemma palette_fold_clusters:
  "m_clusters (fst (foldl (paletteStep msd ml nl) st cs)) = m_clusters (fst st)"
  by (induction cs arbitrary: st) (simp_all add: paletteStep_fields)

lemma palette_fold_dominant:
  "m_dominant (fst (foldl (paletteStep msd ml nl) st cs)) = m_dominant (fst st)"
  by (induction cs arbitrary: st) (simp_all add: paletteStep_fields)

lemma palette_fold_samples:
  "m_samples (fst (foldl (paletteStep msd ml nl) st cs)) = m_samples (fst st)"
  by (induction cs arbitrary: st) (simp_all add: paletteStep_fields)

lemma palette_fold_palette:
  "m_palette (fst (foldl (paletteStep msd ml nl) st cs)) =
     m_palette (fst st) @ map (paletteEntryOf msd ml nl (m_clusters (fst st)) (m_dominant (fst st))) cs"
  by (induction cs arbitrary: st) (simp_all add: paletteStep_fields)

lemma palette_fold_mostSaturated:
  "m_mostSaturated (fst (foldl (paletteStep msd ml nl) st cs)) =
     foldl moreSaturated (m_mostSaturated (fst st)) (map (\<lambda>s. fromRgb (centroid s)) cs)"
  by (induction cs arbitrary: st) (simp_all add: paletteStep_fields)

lemma deriveColors_fields:
  assumes "deriveColors msd ml nl samples cs = Inr d"
  shows "m_clusters d = cs"
    and "m_samples d = samples"
    and "m_dominant d = fromRgb (centroid (hd cs))"
    and "m_palette d = map (paletteEntryOf msd ml nl cs (fromRgb (centroid (hd cs)))) cs"
    and "m_mostSaturated d = foldl moreSaturated QColorInvalid (map (\<lambda>s. fromRgb (centroid s)) cs)"
    and "cs \<noteq> []"
proof -
  from assms obtain c rest where cs: "cs = c # rest"
    by (cases cs) (simp_all add: deriveColors_def)
  define init where "init = (defaultImageData
                    \<lparr>m_samples := samples, m_clusters := cs,
                     m_mostSaturated := QColorInvalid,
                     m_dominant := fromRgb (centroid c),
                     m_closestToBlack := fromChannels 255 255 255,
                     m_closestToWhite := fromChannels 0 0 0,
                     m_palette := []\<rparr>, True)"
  have d: "d = fst (foldl (paletteStep msd ml nl) init cs)"
    using assms unfolding deriveColors_def init_def cs by (simp del: foldl_Cons)
  have i: "m_clusters (fst init) = cs" "m_samples (fst init) = samples"
    "m_dominant (fst init) = fromRgb (centroid (hd cs))" "m_palette (fst init) = []"
    "m_mostSaturated (fst init) = QColorInvalid"
    by (simp_all add: init_def cs)
  show "m_clusters d = cs" unfolding d by (simp only: palette_fold_clusters i)
  show "m_samples d = samples" unfolding d by (simp only: palette_fold_samples i)
  show "m_dominant d = fromRgb (centroid (hd cs))" unfolding d by (simp only: palette_fold_dominant i)
  show "m_palette d = map (paletteEntryOf msd ml nl cs (fromRgb (centroid (hd cs)))) cs"
    unfolding d by (simp only: palette_fold_palette i append_Nil)
  show "m_mostSaturated d = foldl moreSaturated QColorInvalid (map (\<lambda>s. fromRgb (centroid s)) cs)"
    unfolding d by (simp only: palette_fold_mostSaturated i)
  show "cs \<noteq> []" by (simp add: cs)
qed

lemma generatePalette_cases:
  assumes "generatePalette msd r0 srt ml nl img = Inr d"
  shows "d = defaultImageData \<or>
     (\<exists>cs. finalClusters msd r0 srt (fst (collectSamples msd r0 img)) (snd (collectSamples msd r0 img)) = Inr cs
        \<and> deriveColors msd ml nl (fst (collectSamples msd r0 img)) cs = Inr d)"
proof (cases "isNull img \<or> width img = 0")
  case True
  with assms show ?thesis by (simp add: generatePalette_def)
next
  case False
  show ?thesis
  proof (cases "fst (collectSamples msd r0 img) = []")
    case True
    then have "snd (collectSamples msd r0 img) = []"
      by (simp add: collectSamples_eq positionAll_def)
    with True False assms show ?thesis
      by (simp add: generatePalette_def Let_def defaultImageData_def)
  next
    case ne: False
    with False assms show ?thesis
      by (auto simp: generatePalette_def Let_def split: sum.splits)
  qed
qed

text \<open>
  C4, as amended. With fewer than three final clusters every palette entry's
  contrast colour is flat: the near-white \<open>(230, 230, 230)\<close> when the dominant
  colour's grey value is below 120, the near-black \<open>(20, 20, 20)\<close> when it is 120
  or more.
\<close>

theorem small_palette_contrast:
  assumes "generatePalette msd r0 srt ml nl img = Inr d" and "length (m_clusters d) < 3"
  shows "list_all (\<lambda>e. entry_contrastColor e =
            (if qGray (rgb (m_dominant d)) < 120 then fromChannels 230 230 230
             else fromChannels 20 20 20)) (m_palette d)"
proof -
  from generatePalette_cases [OF assms(1)]
  show ?thesis
  proof
    assume "d = defaultImageData"
    then show ?thesis by (simp add: defaultImageData_def)
  next
    assume "\<exists>cs. finalClusters msd r0 srt (fst (collectSamples msd r0 img)) (snd (collectSamples msd r0 img)) = Inr cs
        \<and> deriveColors msd ml nl (fst (collectSamples msd r0 img)) cs = Inr d"
    then obtain cs where dc: "deriveColors msd ml nl (fst (collectSamples msd r0 img)) cs = Inr d"
      by blast
    note f = deriveColors_fields [OF dc]
    from assms(2) f(1) have small: "length cs < 3" by simp
    show ?thesis
      unfolding f(4) f(3)
      by (simp add: list_all_iff paletteEntryOf_def contrastColor_def Let_def small)
  qed
qed

theorem small_palette_contrast_witness:
  "generatePalette 32000 0 stableSort id id solidImage = Inr solidResult \<and>
   length (m_clusters solidResult) < 3 \<and>
   list_all (\<lambda>e. entry_contrastColor e = fromChannels 20 20 20) (m_palette solidResult)"
proof -
  have g: "generatePalette 32000 0 stableSort id id solidImage = Inr solidResult"
    by (rule generatePalette_solid) (simp_all add: std_sort_post_stableSort)
  have l: "length (m_clusters solidResult) < 3"
    by (simp add: solidResult_def)
  have q: "\<not> qGray (rgb (m_dominant solidResult)) < 120"
    unfolding solidResult_def by code_simp
  from small_palette_contrast [OF g l] g l q show ?thesis by simp
qed

text \<open>
  C4 as stated fails: on \<open>solidImage\<close> there is one cluster, the dominant colour's
  grey value is 126, which is not below 120, and the contrast colour is the
  near-black \<open>(20, 20, 20)\<close>, where the claim puts the near-white.
\<close>

theorem small_palette_contrast_counterexample:
  "(case generatePalette 32000 0 stableSort id id solidImage of
      Inl e \<Rightarrow> False
    | Inr d \<Rightarrow> length (m_clusters d) = 1 \<and> qGray (rgb (m_dominant d)) = 126
        \<and> map entry_contrastColor (m_palette d) = [fromChannels 20 20 20]
        \<and> fromChannels 20 20 20 \<noteq> fromChannels 230 230 230)"
proof -
  have n: "fromChannels 20 20 20 \<noteq> fromChannels 230 230 230"
    by (simp add: fromChannels_def qRgb_def)
  have q: "qGray (qRgb (qRed 0xffC86432) (qGreen 0xffC86432) (qBlue 0xffC86432)) = 126"
    by code_simp
  show ?thesis
    by (simp add: generatePalette_solid std_sort_post_stableSort solidResult_def n q)
qed

subsection \<open>The most saturated colour\<close>

lemma qRgb_channels:
  assumes "0 \<le> r" "r \<le> 255" "0 \<le> g" "g \<le> 255" "0 \<le> b" "b \<le> 255"
  shows "qRed (qRgb r g b) = r" "qGreen (qRgb r g b) = g" "qBlue (qRgb r g b) = b"
  unfolding qRed_def qGreen_def qBlue_def qRgb_def red_word green_word blue_word
  using assms by (simp_all only: low_byte)

lemma fromRgb_channels:
  "red (fromRgb c) = qRed c" "green (fromRgb c) = qGreen c" "blue (fromRgb c) = qBlue c"
  by (simp_all add: red_def green_def blue_def fromRgb_def qRgb_channels channel_bounds)

lemma case_fromRgb: "(case fromRgb c of QColorInvalid \<Rightarrow> a | QColorArgb x \<Rightarrow> b) = b"
  by (simp add: fromRgb_def)

lemma qRound_nonneg: "0 \<le> q \<Longrightarrow> 0 \<le> qRound q"
  by (simp add: qRound_def)

lemma hsvSaturation_nonneg: "0 \<le> hsvSaturation (fromRgb c)"
proof -
  let ?mx = "max (qRed c) (max (qGreen c) (qBlue c))"
  let ?mn = "min (qRed c) (min (qGreen c) (qBlue c))"
  have mx: "0 \<le> ?mx" using channel_bounds [of c] by simp
  have le: "?mn \<le> ?mx" by simp
  have "0 \<le> (of_int (?mx - ?mn) :: rat) / of_int ?mx * 65535"
    using mx le by (intro mult_nonneg_nonneg divide_nonneg_nonneg) simp_all
  then have "0 \<le> qRound (of_int (?mx - ?mn) / of_int ?mx * 65535) div 256"
    by (simp add: qRound_nonneg pos_imp_zdiv_nonneg_iff)
  then show ?thesis
    by (simp add: hsvSaturation_def case_fromRgb fromRgb_channels Let_def)
qed


lemma score_black: "isBlack c \<Longrightarrow> saturationScore (fromRgb c) = 0"
  by (simp add: saturationScore_def hsvSaturation_def hsvValue_def case_fromRgb fromRgb_channels
      isBlack_def Let_def)

lemma hsvValue_fromRgb: "hsvValue (fromRgb c) = max (qRed c) (max (qGreen c) (qBlue c))"
  by (simp add: hsvValue_def case_fromRgb fromRgb_channels)

lemma score_not_black: "\<not> isBlack c \<Longrightarrow> 0 < saturationScore (fromRgb c)"
proof -
  assume nb: "\<not> isBlack c"
  let ?v = "hsvValue (fromRgb c)"
  have "1 \<le> ?v" "?v \<le> 255"
    using nb channel_bounds [of c] by (auto simp: hsvValue_fromRgb isBlack_def)
  then have "0 < 158 - \<bar>158 - ?v\<bar>" by arith
  with hsvSaturation_nonneg [of c] show ?thesis
    by (simp add: saturationScore_def)
qed

lemma score_positive_iff: "0 < saturationScore (fromRgb c) \<longleftrightarrow> \<not> isBlack c"
  using score_black [of c] score_not_black [of c] by auto

lemma fold_moreSaturated:
  "(list_all (\<lambda>s. saturationScore (g s) \<le> saturationScore b) cs
      \<and> foldl moreSaturated b (map g cs) = b) \<or>
   (\<exists>pre best post. cs = pre @ best # post
      \<and> foldl moreSaturated b (map g cs) = g best
      \<and> saturationScore b < saturationScore (g best)
      \<and> list_all (\<lambda>s. saturationScore (g s) < saturationScore (g best)) pre
      \<and> list_all (\<lambda>s. saturationScore (g s) \<le> saturationScore (g best)) post)"
proof (induction cs rule: rev_induct)
  case Nil
  show ?case by simp
next
  case (snoc x cs)
  let ?r = "foldl moreSaturated b (map g cs)"
  show ?case
  proof (cases "saturationScore (g x) > saturationScore ?r")
    case True
    then have res: "foldl moreSaturated b (map g (cs @ [x])) = g x"
      by (simp add: moreSaturated_def)
    from snoc.IH have "list_all (\<lambda>s. saturationScore (g s) < saturationScore (g x)) cs
        \<and> saturationScore b < saturationScore (g x)"
    proof
      assume "list_all (\<lambda>s. saturationScore (g s) \<le> saturationScore b) cs \<and> ?r = b"
      with True show ?thesis by (auto simp: list_all_iff)
    next
      assume "\<exists>pre best post. cs = pre @ best # post \<and> ?r = g best
        \<and> saturationScore b < saturationScore (g best)
        \<and> list_all (\<lambda>s. saturationScore (g s) < saturationScore (g best)) pre
        \<and> list_all (\<lambda>s. saturationScore (g s) \<le> saturationScore (g best)) post"
      with True show ?thesis by (fastforce simp: list_all_iff)
    qed
    then have "cs @ [x] = cs @ x # [] \<and> foldl moreSaturated b (map g (cs @ [x])) = g x
        \<and> saturationScore b < saturationScore (g x)
        \<and> list_all (\<lambda>s. saturationScore (g s) < saturationScore (g x)) cs
        \<and> list_all (\<lambda>s. saturationScore (g s) \<le> saturationScore (g x)) []"
      using res by simp
    then show ?thesis by blast
  next
    case False
    then have res: "foldl moreSaturated b (map g (cs @ [x])) = ?r"
      by (simp add: moreSaturated_def)
    from snoc.IH show ?thesis
    proof
      assume "list_all (\<lambda>s. saturationScore (g s) \<le> saturationScore b) cs \<and> ?r = b"
      with False res show ?thesis by simp
    next
      assume "\<exists>pre best post. cs = pre @ best # post \<and> ?r = g best
        \<and> saturationScore b < saturationScore (g best)
        \<and> list_all (\<lambda>s. saturationScore (g s) < saturationScore (g best)) pre
        \<and> list_all (\<lambda>s. saturationScore (g s) \<le> saturationScore (g best)) post"
      then obtain pre best post where h: "cs = pre @ best # post" "?r = g best"
        "saturationScore b < saturationScore (g best)"
        "list_all (\<lambda>s. saturationScore (g s) < saturationScore (g best)) pre"
        "list_all (\<lambda>s. saturationScore (g s) \<le> saturationScore (g best)) post"
        by blast
      from False h(2) have "saturationScore (g x) \<le> saturationScore (g best)" by simp
      with h have "cs @ [x] = pre @ best # (post @ [x])
        \<and> foldl moreSaturated b (map g (cs @ [x])) = g best
        \<and> saturationScore b < saturationScore (g best)
        \<and> list_all (\<lambda>s. saturationScore (g s) < saturationScore (g best)) pre
        \<and> list_all (\<lambda>s. saturationScore (g s) \<le> saturationScore (g best)) (post @ [x])"
        using res by simp
      then show ?thesis by blast
    qed
  qed
qed

text \<open>
  C8, as amended. The most saturated colour starts as the invalid colour, whose
  score is 0, and a candidate replaces it only with a strictly larger score. A
  cluster colour has a positive score unless it is black. So when every final
  centroid is black the result stays the invalid colour; otherwise it is the colour
  of the first cluster, in list order, whose score is the largest.
\<close>

theorem mostSaturated_unless_black:
  assumes "generatePalette msd r0 srt ml nl img = Inr d"
  shows "if list_all (\<lambda>s. isBlack (centroid s)) (m_clusters d)
         then m_mostSaturated d = QColorInvalid
         else (\<exists>pre best post. m_clusters d = pre @ best # post
                 \<and> m_mostSaturated d = fromRgb (centroid best)
                 \<and> \<not> isBlack (centroid best)
                 \<and> list_all (\<lambda>s. saturationScore (fromRgb (centroid s))
                                   < saturationScore (fromRgb (centroid best))) pre
                 \<and> list_all (\<lambda>s. saturationScore (fromRgb (centroid s))
                                   \<le> saturationScore (fromRgb (centroid best))) post)"
proof -
  let ?g = "\<lambda>s. fromRgb (centroid s)"
  have ms: "m_mostSaturated d = foldl moreSaturated QColorInvalid (map ?g (m_clusters d))"
    using generatePalette_cases [OF assms]
  proof
    assume "d = defaultImageData"
    then show ?thesis by (simp add: defaultImageData_def)
  next
    assume "\<exists>cs. finalClusters msd r0 srt (fst (collectSamples msd r0 img)) (snd (collectSamples msd r0 img)) = Inr cs
        \<and> deriveColors msd ml nl (fst (collectSamples msd r0 img)) cs = Inr d"
    then obtain cs where dc: "deriveColors msd ml nl (fst (collectSamples msd r0 img)) cs = Inr d"
      by blast
    from deriveColors_fields(1,5) [OF dc] show ?thesis by simp
  qed
  have zero: "list_all (\<lambda>s. saturationScore (?g s) \<le> saturationScore QColorInvalid) cs
      \<longleftrightarrow> list_all (\<lambda>s. isBlack (centroid s)) cs" for cs
    using score_positive_iff by (auto simp: list_all_iff score_invalid not_less [symmetric])
  from fold_moreSaturated [of ?g QColorInvalid "m_clusters d"]
  show ?thesis
  proof
    assume "list_all (\<lambda>s. saturationScore (?g s) \<le> saturationScore QColorInvalid) (m_clusters d)
      \<and> foldl moreSaturated QColorInvalid (map ?g (m_clusters d)) = QColorInvalid"
    then show ?thesis by (simp add: zero ms)
  next
    assume "\<exists>pre best post. m_clusters d = pre @ best # post
      \<and> foldl moreSaturated QColorInvalid (map ?g (m_clusters d)) = ?g best
      \<and> saturationScore QColorInvalid < saturationScore (?g best)
      \<and> list_all (\<lambda>s. saturationScore (?g s) < saturationScore (?g best)) pre
      \<and> list_all (\<lambda>s. saturationScore (?g s) \<le> saturationScore (?g best)) post"
    then obtain pre best post where h: "m_clusters d = pre @ best # post"
      "foldl moreSaturated QColorInvalid (map ?g (m_clusters d)) = ?g best"
      "saturationScore QColorInvalid < saturationScore (?g best)"
      "list_all (\<lambda>s. saturationScore (?g s) < saturationScore (?g best)) pre"
      "list_all (\<lambda>s. saturationScore (?g s) \<le> saturationScore (?g best)) post"
      by blast
    from h(3) have nb: "\<not> isBlack (centroid best)"
      by (simp add: score_invalid score_positive_iff)
    then have "\<not> list_all (\<lambda>s. isBlack (centroid s)) (m_clusters d)"
      by (simp add: h(1))
    moreover have "\<exists>pre best post. m_clusters d = pre @ best # post
                 \<and> m_mostSaturated d = fromRgb (centroid best)
                 \<and> \<not> isBlack (centroid best)
                 \<and> list_all (\<lambda>s. saturationScore (fromRgb (centroid s))
                                   < saturationScore (fromRgb (centroid best))) pre
                 \<and> list_all (\<lambda>s. saturationScore (fromRgb (centroid s))
                                   \<le> saturationScore (fromRgb (centroid best))) post"
      using h nb ms by metis
    ultimately show ?thesis by simp
  qed
qed

theorem mostSaturated_unless_black_witness:
  "generatePalette 32000 0 stableSort id id solidImage = Inr solidResult \<and>
   \<not> list_all (\<lambda>s. isBlack (centroid s)) (m_clusters solidResult) \<and>
   (\<exists>pre best post. m_clusters solidResult = pre @ best # post
       \<and> m_mostSaturated solidResult = fromRgb (centroid best)
       \<and> \<not> isBlack (centroid best))"
proof -
  have g: "generatePalette 32000 0 stableSort id id solidImage = Inr solidResult"
    by (rule generatePalette_solid) (simp_all add: std_sort_post_stableSort)
  have nb: "\<not> list_all (\<lambda>s. isBlack (centroid s)) (m_clusters solidResult)"
    by (simp add: solidResult_def isBlack_def qRed_def)
  from mostSaturated_unless_black [OF g] nb
  have "\<exists>pre best post. m_clusters solidResult = pre @ best # post
                 \<and> m_mostSaturated solidResult = fromRgb (centroid best)
                 \<and> \<not> isBlack (centroid best)
                 \<and> list_all (\<lambda>s. saturationScore (fromRgb (centroid s))
                                   < saturationScore (fromRgb (centroid best))) pre
                 \<and> list_all (\<lambda>s. saturationScore (fromRgb (centroid s))
                                   \<le> saturationScore (fromRgb (centroid best))) post"
    by simp
  then have "\<exists>pre best post. m_clusters solidResult = pre @ best # post
       \<and> m_mostSaturated solidResult = fromRgb (centroid best)
       \<and> \<not> isBlack (centroid best)"
    by blast
  with g nb show ?thesis by blast
qed

text \<open>
  C8 as stated fails: the first candidate does not always win. On \<open>blackImage\<close> the
  only cluster is black, its colour is a valid colour, and the most saturated colour
  stays invalid.
\<close>

theorem mostSaturated_counterexample:
  "(case generatePalette 32000 0 stableSort id id blackImage of
      Inl e \<Rightarrow> False
    | Inr d \<Rightarrow> map centroid (m_clusters d) = [0xff000000]
        \<and> m_mostSaturated d = QColorInvalid
        \<and> fromRgb 0xff000000 \<noteq> QColorInvalid)"
  by code_simp

subsection \<open>Ratios on the uniform image\<close>

text \<open>
  C1, evaluated. For every positive threshold, every default ratio and every sort
  that keeps the library's promise, \<open>solidImage\<close> yields one palette entry of
  colour \<open>(200, 100, 50)\<close>, which is also the dominant colour; the entry's ratio is
  \<open>5 / 4\<close>, not 1. The ratio is assigned at the start of the fifth iteration from a
  member list that holds the four samples and the seed left by the fourth. The
  quotient of 5 by 4 is exact in binary floating point as well.
\<close>

theorem uniform_image_palette:
  assumes "0 < msd" and "std_sort_post srt"
  shows "(case generatePalette msd r0 srt ml nl solidImage of
            Inl e \<Rightarrow> False
          | Inr d \<Rightarrow> map entry_color (m_palette d) = [fromChannels 200 100 50]
              \<and> map entry_ratio (m_palette d) = [5 / 4]
              \<and> m_dominant d = fromChannels 200 100 50)"
proof -
  have c: "fromChannels 200 100 50 = QColorArgb 0xffC86432"
    by code_simp
  show ?thesis
    by (simp add: generatePalette_solid [OF assms] solidResult_def c)
qed

theorem uniform_image_palette_witness:
  "0 < (32000 :: int) \<and> std_sort_post stableSort \<and>
   (case generatePalette 32000 0 stableSort id id solidImage of
      Inl e \<Rightarrow> False
    | Inr d \<Rightarrow> map entry_color (m_palette d) = [fromChannels 200 100 50]
        \<and> map entry_ratio (m_palette d) = [5 / 4]
        \<and> m_dominant d = fromChannels 200 100 50)"
  using uniform_image_palette [of 32000 stableSort 0 id id]
  by (simp add: std_sort_post_stableSort)

text \<open>
  The ratios that the centroid update assigns add up to the number of members over
  the number of samples. After an iteration has seeded every cluster, that is the
  number of samples plus the number of seeded clusters, over the number of samples.
\<close>

lemma mapE_updateCentroid_ratios:
  "mapE (updateCentroid n) cs = Inr us \<Longrightarrow>
   sum_list (map ratio us) = of_nat (totalMembers cs) / of_nat n"
proof (induction cs arbitrary: us)
  case Nil
  then show ?case by (simp add: totalMembers_def)
next
  case (Cons s cs)
  from Cons.prems obtain u us' where u: "updateCentroid n s = Inr u"
      and us': "mapE (updateCentroid n) cs = Inr us'" and us: "us = u # us'"
    by (auto split: sum.splits)
  from u have r: "ratio u = of_nat (memberCount s) / of_nat n"
    by (auto simp: updateCentroid_def Let_def memberCount_def split: if_splits)
  from Cons.IH [OF us'] r show ?case
    by (simp add: us totalMembers_def add_divide_distrib)
qed

lemma ratio_sum_after_seeding:
  assumes "list_all (\<lambda>s. colors s \<noteq> []) cs"
    and "refineIteration msd r0 samples cs = Inr cs1"
    and "mapE (updateCentroid (length samples)) cs1 = Inr us"
  shows "sum_list (map ratio us) = of_nat (length samples + length cs) / of_nat (length samples)"
proof -
  from refineIteration_members [OF assms(1), of msd r0 samples] assms(2)
  have "totalMembers cs1 = length samples + length cs" by auto
  with mapE_updateCentroid_ratios [OF assms(3)] show ?thesis by simp
qed

text \<open>
  C3, evaluated. On \<open>solidImage\<close> the ratios of the clusters that survive the merge
  pass add up to \<open>5 / 4\<close>, that is 4 samples and 1 seed over 4 samples, for every
  positive threshold, default ratio and sort.
\<close>

theorem uniform_image_ratio_sum:
  assumes "0 < msd" and "std_sort_post srt"
  shows "(case finalClusters msd r0 srt (fst (collectSamples msd r0 solidImage))
                 (snd (collectSamples msd r0 solidImage)) of
            Inl e \<Rightarrow> False
          | Inr cs \<Rightarrow> sum_list (map ratio cs) = 5 / 4)"
  by (simp add: collect_solid [OF assms(1)] finalClusters_def refine_solid [OF assms(1)]
      sort_single [OF assms(2)] mergePass_single)

theorem uniform_image_ratio_sum_witness:
  "0 < (32000 :: int) \<and> std_sort_post stableSort \<and>
   (case finalClusters 32000 0 stableSort (fst (collectSamples 32000 0 solidImage))
           (snd (collectSamples 32000 0 solidImage)) of
      Inl e \<Rightarrow> False
    | Inr cs \<Rightarrow> sum_list (map ratio cs) = 5 / 4)"
  using uniform_image_ratio_sum [of 32000 stableSort 0]
  by (simp add: std_sort_post_stableSort)

subsection \<open>The merge pass\<close>

lemma mergeInto_colors: "mergeInto src dst = Inr d \<Longrightarrow> colors d = colors dst"
  by (auto simp: mergeInto_def Let_def split: if_splits)


lemma findDest_None:
  "list_all (\<lambda>d. msd \<le> squareDistance c (centroid d)) ds \<Longrightarrow> findDest msd c ds j = None"
  by (induction ds arbitrary: j) auto

lemma findDest_bound: "findDest msd c ds j = Some k \<Longrightarrow> j \<le> k \<and> k < j + length ds"
proof (induction ds arbitrary: j)
  case Nil
  then show ?case by simp
next
  case (Cons d ds)
  show ?case
  proof (cases "squareDistance c (centroid d) < msd")
    case True
    with Cons.prems show ?thesis by simp
  next
    case False
    with Cons.prems have "findDest msd c ds (Suc j) = Some k" by simp
    from Cons.IH [OF this] show ?thesis by simp
  qed
qed

lemma mergeSource_shape:
  assumes "mergeSource msd i st = Inr st'"
  shows "st' = st \<or> (\<exists>j d. j < i \<and> j < length (fst st) \<and> mergeInto (fst st ! i) (fst st ! j) = Inr d
            \<and> st' = ((fst st)[j := d], snd st @ [i]))"
proof (cases "findDest msd (centroid (fst st ! i)) (take i (fst st)) 0")
  case None
  with assms show ?thesis by (simp add: mergeSource_def)
next
  case (Some j)
  from findDest_bound [OF Some] have j: "j < i" "j < length (fst st)" by simp_all
  from assms Some obtain d where d: "mergeInto (fst st ! i) (fst st ! j) = Inr d"
      "st' = ((fst st)[j := d], snd st @ [i])"
    by (auto simp: mergeSource_def split: sum.splits)
  with j show ?thesis by blast
qed

lemma mergeSource_colors:
  assumes "mergeSource msd i st = Inr st'"
  shows "map colors (fst st') = map colors (fst st)"
  using mergeSource_shape [OF assms]
proof
  assume "st' = st"
  then show ?thesis by simp
next
  assume "\<exists>j d. j < i \<and> j < length (fst st) \<and> mergeInto (fst st ! i) (fst st ! j) = Inr d
            \<and> st' = ((fst st)[j := d], snd st @ [i])"
  then obtain j d where h: "j < length (fst st)" "mergeInto (fst st ! i) (fst st ! j) = Inr d"
      "st' = ((fst st)[j := d], snd st @ [i])"
    by blast
  have "map colors ((fst st)[j := d]) = (map colors (fst st))[j := colors (fst st ! j)]"
    by (simp add: map_update mergeInto_colors [OF h(2)])
  also have "\<dots> = map colors (fst st)"
    using h(1) by (simp add: list_update_same_conv)
  finally show ?thesis by (simp add: h(3))
qed


lemma mergeLoop_colors:
  "mergeLoop msd k st = Inr st' \<Longrightarrow> map colors (fst st') = map colors (fst st)"
proof (induction k arbitrary: st)
  case 0
  then show ?case by simp
next
  case (Suc k)
  from Suc.prems obtain st1 where s: "mergeSource msd k st = Inr st1" "mergeLoop msd k st1 = Inr st'"
    by (auto split: sum.splits)
  from Suc.IH [OF s(2)] mergeSource_colors [OF s(1)] show ?case by simp
qed



lemma eraseAt_sorted: "sorted_wrt P xs \<Longrightarrow> sorted_wrt P (eraseAt i xs)"
proof -
  assume "sorted_wrt P xs"
  then have "sorted_wrt P (take i xs @ drop i xs)" by simp
  then have a: "sorted_wrt P (take i xs)" and b: "sorted_wrt P (drop i xs)"
    and c: "\<forall>x\<in>set (take i xs). \<forall>y\<in>set (drop i xs). P x y"
    unfolding sorted_wrt_append by blast+
  have d: "drop (Suc i) xs = drop 1 (drop i xs)" by simp
  have "sorted_wrt P (drop (Suc i) xs)"
    unfolding d using b by (rule sorted_wrt_drop)
  moreover have "set (drop (Suc i) xs) \<subseteq> set (drop i xs)"
    unfolding d by (rule set_drop_subset)
  ultimately show ?thesis
    using a c unfolding eraseAt_def sorted_wrt_append by blast
qed

lemma erase_fold_sorted:
  "sorted_wrt P xs \<Longrightarrow> sorted_wrt P (foldl (\<lambda>xs i. eraseAt i xs) xs del)"
  by (induction del arbitrary: xs) (simp_all add: eraseAt_sorted)

lemma sorted_by_colors:
  "sorted_wrt (\<lambda>a b. \<not> memberCount a < memberCount b) cs
     \<longleftrightarrow> sorted_wrt (\<lambda>x y. \<not> length x < length y) (map colors cs)"
  by (simp add: sorted_wrt_map memberCount_def)

lemma mergePass_sorted:
  assumes "mergePass msd cs = Inr cs'"
    and "sorted_wrt (\<lambda>a b. \<not> memberCount a < memberCount b) cs"
  shows "sorted_wrt (\<lambda>a b. \<not> memberCount a < memberCount b) cs'"
proof -
  from assms(1) obtain st where st: "mergeLoop msd (length cs) (cs, []) = Inr st"
      "cs' = foldl (\<lambda>xs i. eraseAt i xs) (fst st) (snd st)"
    by (auto simp: mergePass_def split: sum.splits)
  from mergeLoop_colors [OF st(1)] have "map colors (fst st) = map colors cs" by simp
  with assms(2) have "sorted_wrt (\<lambda>a b. \<not> memberCount a < memberCount b) (fst st)"
    by (simp add: sorted_by_colors)
  then show ?thesis unfolding st(2) by (rule erase_fold_sorted)
qed

lemma mergeLoop_apart:
  "apart msd cs \<Longrightarrow> k \<le> length cs \<Longrightarrow> mergeLoop msd k (cs, []) = Inr (cs, [])"
proof (induction k)
  case 0
  show ?case by simp
next
  case (Suc k)
  from Suc.prems have "k < length cs" by simp
  with Suc.prems(1)
  have "list_all (\<lambda>d. msd \<le> squareDistance (centroid (cs ! k)) (centroid d)) (take k cs)"
    by (simp add: apart_def list_all_iff)
  then have "mergeSource msd k (cs, []) = Inr (cs, [])"
    by (simp add: mergeSource_def findDest_None)
  with Suc show ?case by simp
qed

text \<open>
  C5, as amended. On a cluster list in which every centroid is at least the
  threshold away from the centroid of every earlier cluster, the merge pass merges
  nothing and returns the list as it is.
\<close>

theorem mergePass_apart: "apart msd cs \<Longrightarrow> mergePass msd cs = Inr cs"
  by (simp add: mergePass_def mergeLoop_apart)

theorem mergePass_apart_witness: "apart 32000 farPair \<and> mergePass 32000 farPair = Inr farPair"
proof -
  have a: "apart 32000 farPair" by code_simp
  from a mergePass_apart [OF a] show ?thesis by simp
qed

lemma drift_collect:
  "collectSamples 32000 0 (columnImage driftPixels) = (driftPixels, driftScanned)"
  by code_simp

lemma drift_refine: "refine 5 32000 0 driftPixels driftScanned = Inr driftRefined"
  by code_simp

lemma drift_merge: "mergePass 32000 (stableSort driftRefined) = Inr driftFinal"
  by code_simp

lemma drift_again:
  "(case mergePass 32000 driftFinal of Inl e \<Rightarrow> False | Inr cs \<Rightarrow> length cs = 1)"
  by code_simp

lemma drift_near:
  "map centroid driftFinal = [qRgb 112 129 27, qRgb 180 144 104] \<and>
   squareDistance (qRgb 180 144 104) (qRgb 112 129 27) = 27935 \<and>
   squareDistance (qRgb 112 129 27) (qRgb 180 144 104) = 27935"
  by code_simp

text \<open>
  C5 as stated fails. On the column of \<open>driftPixels\<close> the merge pass folds the
  cluster at \<open>(152, 100, 8)\<close> into the one at \<open>(72, 159, 47)\<close>, which moves the
  latter's centroid to \<open>(112, 129, 27)\<close>. The cluster at \<open>(180, 144, 104)\<close> had
  been compared with the old centroid and kept; it is at distance 27935, below the
  threshold 32000, from the new one. Both clusters survive, and a second merge pass
  on the result merges them. The mixing weight of the first merge is
  \<open>(3 / 8) / (3 / 4) = 1 / 2\<close>, so every product and sum in it is exact in binary
  floating point; the member counts 6, 3 and 2 are distinct, so the order after the
  sort does not depend on how the sort treats ties.
\<close>

theorem merge_not_idempotent_counterexample:
  "(case finalClusters 32000 0 stableSort (fst (collectSamples 32000 0 (columnImage driftPixels)))
           (snd (collectSamples 32000 0 (columnImage driftPixels))) of
      Inl e \<Rightarrow> False
    | Inr cs \<Rightarrow>
        map centroid cs = [qRgb 112 129 27, qRgb 180 144 104]
        \<and> squareDistance (qRgb 180 144 104) (qRgb 112 129 27) = 27935
        \<and> squareDistance (qRgb 112 129 27) (qRgb 180 144 104) = 27935
        \<and> (case mergePass 32000 cs of Inl e \<Rightarrow> False | Inr cs' \<Rightarrow> length cs' = 1))"
  using drift_again drift_near
  by (simp add: drift_collect finalClusters_def drift_refine drift_merge)

subsection \<open>Order of the palette\<close>

lemma swap_collect:
  "collectSamples 32000 0 (columnImage swapPixels) = (swapPixels, swapScanned)"
  by code_simp

lemma swap_refine: "refine 5 32000 0 swapPixels swapScanned = Inr swapRefined"
  by code_simp

lemma swap_merge: "mergePass 32000 (stableSort swapRefined) = Inr swapFinal"
  by code_simp

lemma deriveColors_total:
  "cs \<noteq> [] \<Longrightarrow> \<exists>d. deriveColors msd ml nl samples cs = Inr d"
  by (cases cs) (simp_all add: deriveColors_def del: foldl_Cons)

lemma palette_of_clusters:
  assumes "generatePalette msd r0 srt ml nl img = Inr d"
  shows "map entry_ratio (m_palette d) = map ratio (m_clusters d)"
    and "map entry_color (m_palette d) = map (\<lambda>s. fromRgb (centroid s)) (m_clusters d)"
proof -
  from generatePalette_cases [OF assms]
  have "map entry_ratio (m_palette d) = map ratio (m_clusters d)
      \<and> map entry_color (m_palette d) = map (\<lambda>s. fromRgb (centroid s)) (m_clusters d)"
  proof
    assume "d = defaultImageData"
    then show ?thesis by (simp add: defaultImageData_def)
  next
    assume "\<exists>cs. finalClusters msd r0 srt (fst (collectSamples msd r0 img)) (snd (collectSamples msd r0 img)) = Inr cs
        \<and> deriveColors msd ml nl (fst (collectSamples msd r0 img)) cs = Inr d"
    then obtain cs where dc: "deriveColors msd ml nl (fst (collectSamples msd r0 img)) cs = Inr d"
      by blast
    from deriveColors_fields(1,4) [OF dc] show ?thesis
      by (simp add: paletteEntryOf_def comp_def)
  qed
  then show "map entry_ratio (m_palette d) = map ratio (m_clusters d)"
    and "map entry_color (m_palette d) = map (\<lambda>s. fromRgb (centroid s)) (m_clusters d)"
    by simp_all
qed

text \<open>
  The library's promise does not fix the order of clusters with equal member counts:
  two sorts that both keep it order \<open>tiePair\<close> differently.
\<close>

lemma sort_ties_unspecified:
  "std_sort_post stableSort \<and> std_sort_post reversingSort
     \<and> stableSort tiePair \<noteq> reversingSort tiePair"
proof -
  have "stableSort tiePair \<noteq> reversingSort tiePair" by code_simp
  then show ?thesis
    by (simp add: std_sort_post_stableSort std_sort_post_reversingSort)
qed

text \<open>
  C6, as amended. With a sort that keeps the library's promise, the final clusters
  are in order of non-increasing member count: the sort puts them in that order and
  the merge pass only erases clusters and rewrites centroids and ratios. The palette
  lists the final clusters in that order, each entry with its cluster's colour and
  ratio field.
\<close>

theorem palette_sorted_by_member_count:
  assumes "std_sort_post srt" and "generatePalette msd r0 srt ml nl img = Inr d"
  shows "sorted_wrt (\<lambda>a b. memberCount b \<le> memberCount a) (m_clusters d)
     \<and> map entry_ratio (m_palette d) = map ratio (m_clusters d)
     \<and> map entry_color (m_palette d) = map (\<lambda>s. fromRgb (centroid s)) (m_clusters d)"
proof -
  have le: "(\<lambda>a b. memberCount b \<le> memberCount a) = (\<lambda>a b. \<not> memberCount a < memberCount b)"
    by (simp add: not_less)
  have "sorted_wrt (\<lambda>a b. \<not> memberCount a < memberCount b) (m_clusters d)"
    using generatePalette_cases [OF assms(2)]
  proof
    assume "d = defaultImageData"
    then show ?thesis by (simp add: defaultImageData_def)
  next
    assume "\<exists>cs. finalClusters msd r0 srt (fst (collectSamples msd r0 img)) (snd (collectSamples msd r0 img)) = Inr cs
        \<and> deriveColors msd ml nl (fst (collectSamples msd r0 img)) cs = Inr d"
    then obtain cs where fc: "finalClusters msd r0 srt (fst (collectSamples msd r0 img)) (snd (collectSamples msd r0 img)) = Inr cs"
      and dc: "deriveColors msd ml nl (fst (collectSamples msd r0 img)) cs = Inr d"
      by blast
    from fc obtain refined where m: "mergePass msd (srt refined) = Inr cs"
      by (auto simp: finalClusters_def split: sum.splits)
    from assms(1) have "sorted_wrt (\<lambda>a b. \<not> memberCount a < memberCount b) (srt refined)"
      unfolding std_sort_post_def by blast
    from mergePass_sorted [OF m this] deriveColors_fields(1) [OF dc] show ?thesis by simp
  qed
  with palette_of_clusters [OF assms(2)] show ?thesis by (simp add: le)
qed

theorem palette_sorted_by_member_count_witness:
  "std_sort_post stableSort \<and>
   generatePalette 32000 0 stableSort id id solidImage = Inr solidResult \<and>
   sorted_wrt (\<lambda>a b. memberCount b \<le> memberCount a) (m_clusters solidResult) \<and>
   map entry_ratio (m_palette solidResult) = map ratio (m_clusters solidResult)"
proof -
  have g: "generatePalette 32000 0 stableSort id id solidImage = Inr solidResult"
    by (rule generatePalette_solid) (simp_all add: std_sort_post_stableSort)
  from palette_sorted_by_member_count [OF std_sort_post_stableSort g] g
  show ?thesis by (simp add: std_sort_post_stableSort)
qed

text \<open>
  C6 as stated fails. On the column of \<open>swapPixels\<close> the refined clusters have 5, 2
  and 4 members and the ratios \<open>5 / 8\<close>, \<open>1 / 4\<close> and \<open>1 / 2\<close>. After the sort the
  cluster of 2 is folded into the cluster of 4, whose ratio becomes \<open>3 / 4\<close>. The
  palette then lists the ratios \<open>5 / 8\<close> and \<open>3 / 4\<close>, which increase. The member
  counts are distinct, so the order after the sort does not depend on how the sort
  treats ties, and the ratios are multiples of \<open>1 / 8\<close>, exact in binary floating
  point.
\<close>

theorem palette_ratio_order_counterexample:
  "(case generatePalette 32000 0 stableSort id id (columnImage swapPixels) of
      Inl e \<Rightarrow> False
    | Inr d \<Rightarrow> map memberCount (m_clusters d) = [5, 4]
        \<and> map entry_ratio (m_palette d) = [5 / 8, 3 / 4])"
proof -
  have f: "finalClusters 32000 0 stableSort swapPixels swapScanned = Inr swapFinal"
    by (simp add: finalClusters_def swap_refine swap_merge)
  have ne: "swapFinal \<noteq> []" "swapPixels \<noteq> []"
    by (simp_all add: swapFinal_def swapPixels_def)
  have w: "\<not> isNull (columnImage swapPixels)" "width (columnImage swapPixels) \<noteq> 0"
    by (simp_all add: columnImage_def)
  from deriveColors_total [OF ne(1)] obtain d
    where d: "deriveColors 32000 id id swapPixels swapFinal = Inr d"
    by blast
  have g: "generatePalette 32000 0 stableSort id id (columnImage swapPixels) = Inr d"
    by (simp add: generatePalette_def w swap_collect ne f d)
  have c: "map memberCount swapFinal = [5, 4]" "map ratio swapFinal = [5 / 8, 3 / 4]"
    by (simp_all add: swapFinal_def memberCount_def)
  from palette_of_clusters(1) [OF g] deriveColors_fields(1) [OF d] c show ?thesis
    by (simp add: g)
qed


subsection \<open>Clusters created in the last iteration\<close>













end
